theory Spec2Isabelle
  imports Complex_Main
begin

section \<open>Wallace tree generator (scripts/wallace\_tree.py)\<close>

text \<open>
  A shallow embedding of the Wallace tree generator. Python integers are \<open>int\<close>,
  lists are HOL lists, and every exception the source can raise is a value of
  \<open>error\<close>. Latencies are Python floats in the source; they are modelled as
  \<open>real\<close>: every delay constant (1.0, 1.5, 4.0 and their sums) is a dyadic
  rational, so the additions and maxima the generator performs on latencies that it
  creates itself are exact in binary floating point. Where a property depends on that
  exactness, it is stated for the latencies \<open>exact_latency\<close> describes.

  A signal's \<open>host\<close> is a reference to the compressor object that produced it, and
  the compressor refers back to its output signals; the model stores the producing
  compressor's name in \<open>host\<close> instead of the cyclic reference.
\<close>

subsection \<open>Errors and Python primitives\<close>

datatype error =
    ValueError string
  | IndexError
  | AssertionError
  | TypeError

text \<open>Subscripting a Python list: \<open>xs[i]\<close> with \<open>i\<close> from \<open>-len(xs)\<close> up to
  \<open>len(xs) - 1\<close>, where \<open>xs[-k]\<close> is the \<open>k\<close>-th element from the end; every
  other index raises IndexError.\<close>

definition py_index :: "'a list \<Rightarrow> int \<Rightarrow> error + 'a" where
  "py_index xs i =
     (if 0 \<le> i \<and> i < int (length xs) then Inr (xs ! nat i)
      else if i < 0 \<and> - int (length xs) \<le> i then Inr (xs ! nat (int (length xs) + i))
      else Inl IndexError)"

text \<open>\<open>range(0, n)\<close>.\<close>

definition range0 :: "int \<Rightarrow> int list" where
  "range0 n = [0..n - 1]"

text \<open>A \<open>for\<close> loop that appends one computed value per iteration; the first
  exception ends the loop.\<close>

primrec for_each :: "('a \<Rightarrow> error + 'b) \<Rightarrow> 'a list \<Rightarrow> error + 'b list" where
  "for_each f [] = Inr []"
| "for_each f (x # xs) =
     (case f x of
        Inl e \<Rightarrow> Inl e
      | Inr y \<Rightarrow> (case for_each f xs of Inl e \<Rightarrow> Inl e | Inr ys \<Rightarrow> Inr (y # ys)))"

text \<open>Decimal rendering of an integer, as an f-string does.\<close>

definition digit_char :: "nat \<Rightarrow> char" where
  "digit_char d = char_of (48 + d)"

function str_nat :: "nat \<Rightarrow> string" where
  "str_nat n = (if n < 10 then [digit_char n] else str_nat (n div 10) @ [digit_char (n mod 10)])"
  by pat_completeness auto
termination
  by (relation "measure (\<lambda>n. n)") auto

declare str_nat.simps [simp del]

definition str_int :: "int \<Rightarrow> string" where
  "str_int i = (if i < 0 then CHR ''-'' # str_nat (nat (- i)) else str_nat (nat i))"

subsection \<open>Delay constants\<close>

definition BOOTH_DELAY :: real where "BOOTH_DELAY = 4"
definition AND_DELAY :: real where "AND_DELAY = 1"
definition OR_DELAY :: real where "OR_DELAY = 1"
definition XOR_DELAY :: real where "XOR_DELAY = 3 / 2"

subsection \<open>Signals\<close>

record Signal =
  name :: string
  latency :: real
  host :: "string option"
  loader :: "string option"

definition new_Signal :: "string \<Rightarrow> real \<Rightarrow> string option \<Rightarrow> Signal" where
  "new_Signal nm depth hst = \<lparr>name = nm, latency = depth, host = hst, loader = None\<rparr>"

definition TIE_LOW :: Signal where
  "TIE_LOW = new_Signal [CHR ''1'', CHR 0x27, CHR ''b'', CHR ''0''] 0 None"

subsection \<open>Compressors\<close>

datatype Compressor =
    Compressor2to1 (c_column: int) (c_level: int) (c_name: string)
      (input_dict: "(string \<times> Signal) list") (c_sum: Signal) (cout: Signal)
  | Compressor3to2 (c_column: int) (c_level: int) (c_name: string)
      (input_dict: "(string \<times> Signal) list") (c_sum: Signal) (cout: Signal)
  | Compressor4to2 (c_column: int) (c_level: int) (c_name: string)
      (input_dict: "(string \<times> Signal) list") (c_sum: Signal) (cout_a: Signal) (cout_b: Signal)

text \<open>\<open>Compressor.__init__\<close>: the instance name.\<close>

definition Compressor_name :: "string \<Rightarrow> int \<Rightarrow> int \<Rightarrow> int \<Rightarrow> string" where
  "Compressor_name module_name col lvl no =
     ''u_'' @ module_name @ ''_'' @ str_int col @ ''_'' @ str_int lvl @ ''_'' @ str_int no"

definition Compressor2to1_latency_sum :: real where
  "Compressor2to1_latency_sum = XOR_DELAY"
definition Compressor2to1_latency_cout :: real where
  "Compressor2to1_latency_cout = AND_DELAY"

definition new_Compressor2to1 :: "Signal \<Rightarrow> Signal \<Rightarrow> int \<Rightarrow> int \<Rightarrow> int \<Rightarrow> Compressor" where
  "new_Compressor2to1 a b col lvl no =
     (let nm = Compressor_name ''cmprs_2to1'' col lvl no;
          max_ab = max (latency a) (latency b);
          sum_delay = max_ab + Compressor2to1_latency_sum;
          cout_delay = max_ab + Compressor2to1_latency_cout
      in Compressor2to1 col lvl nm [(''a'', a), (''b'', b)]
           (new_Signal (nm @ ''_sum'') sum_delay (Some nm))
           (new_Signal (nm @ ''_cout'') cout_delay (Some nm)))"

definition Compressor3to2_latency_sum :: real where
  "Compressor3to2_latency_sum = XOR_DELAY * 2"
definition Compressor3to2_latency_cout :: real where
  "Compressor3to2_latency_cout = AND_DELAY + OR_DELAY"

definition new_Compressor3to2 ::
  "Signal \<Rightarrow> Signal \<Rightarrow> Signal \<Rightarrow> int \<Rightarrow> int \<Rightarrow> int \<Rightarrow> Compressor" where
  "new_Compressor3to2 a b c col lvl no =
     (let nm = Compressor_name ''cmprs_3to2'' col lvl no;
          max_abc = max (max (latency a) (latency b)) (latency c);
          sum_delay = max_abc + Compressor3to2_latency_sum;
          cout_delay = max_abc + Compressor3to2_latency_cout
      in Compressor3to2 col lvl nm [(''a'', a), (''b'', b), (''c'', c)]
           (new_Signal (nm @ ''_sum'') sum_delay (Some nm))
           (new_Signal (nm @ ''_cout'') cout_delay (Some nm)))"

definition Compressor4to2_latency_sum :: real where
  "Compressor4to2_latency_sum = XOR_DELAY * 3"
definition Compressor4to2_latency_abcd :: real where
  "Compressor4to2_latency_abcd = XOR_DELAY * 2"
definition Compressor4to2_latency_cin :: real where
  "Compressor4to2_latency_cin = AND_DELAY"
definition Compressor4to2_latency_cout_a :: real where
  "Compressor4to2_latency_cout_a = OR_DELAY"
definition Compressor4to2_latency_cout_b :: real where
  "Compressor4to2_latency_cout_b = AND_DELAY + OR_DELAY"

definition new_Compressor4to2 ::
  "Signal \<Rightarrow> Signal \<Rightarrow> Signal \<Rightarrow> Signal \<Rightarrow> Signal \<Rightarrow> int \<Rightarrow> int \<Rightarrow> int \<Rightarrow> Compressor" where
  "new_Compressor4to2 a b c d cin col lvl no =
     (let nm = Compressor_name ''cmprs_4to2'' col lvl no;
          max_abc = max (max (latency a) (latency b)) (latency c);
          max_all = max (max max_abc (latency d)) (latency cin);
          abcd_xor = max max_abc (latency d) + Compressor4to2_latency_abcd;
          cin_and = latency cin + Compressor4to2_latency_cin;
          sum_delay = max_all + Compressor4to2_latency_sum;
          cout_a_delay = max abcd_xor cin_and + Compressor4to2_latency_cout_a;
          cout_b_delay = max_abc + Compressor4to2_latency_cout_b
      in Compressor4to2 col lvl nm
           [(''a'', a), (''b'', b), (''c'', c), (''d'', d), (''cin'', cin)]
           (new_Signal (nm @ ''_sum'') sum_delay (Some nm))
           (new_Signal (nm @ ''_cout_a'') cout_a_delay (Some nm))
           (new_Signal (nm @ ''_cout_b'') cout_b_delay (Some nm)))"

subsection \<open>The engine state\<close>

record WallaceTree =
  width :: int
  result_width :: int
  pp_num :: int
  tree_map :: "int list list"
  columns :: "Signal list list"
  compressors :: "Compressor list"

text \<open>\<open>get_pp_width\<close>: the populated width of a partial-product row.\<close>

definition get_pp_width :: "WallaceTree \<Rightarrow> int \<Rightarrow> error + int" where
  "get_pp_width self row =
     (if row < 0 \<or> row \<ge> pp_num self then
        Inl (ValueError (''Row number('' @ str_int row @ '') out of range:[''
                           @ str_int (pp_num self - 1) @ '':0].''))
      else if row = 0 then Inr (width self + 4)
      else if row = pp_num self - 1 then Inr (width self + 3)
      else Inr (width self + 5))"

text \<open>\<open>get_wallace_map\<close>: one row of 0/1 entries per partial product. The inner
  condition is an \<open>or\<close>: \<open>get_pp_width\<close> is only called when \<open>j < start_pos\<close> is
  false.\<close>

definition wallace_map_entry :: "WallaceTree \<Rightarrow> int \<Rightarrow> int \<Rightarrow> int \<Rightarrow> error + int" where
  "wallace_map_entry self i start_pos j =
     (if j < start_pos then Inr 0
      else (case get_pp_width self i of
              Inl e \<Rightarrow> Inl e
            | Inr w \<Rightarrow> if j \<ge> start_pos + w then Inr 0 else Inr 1))"

definition wallace_map_row :: "WallaceTree \<Rightarrow> int \<Rightarrow> int \<Rightarrow> error + int list" where
  "wallace_map_row self list_len i =
     (let start_pos = (if i \<le> 1 then 0 else i * 2 - 2)
      in for_each (wallace_map_entry self i start_pos) (range0 list_len))"

definition get_wallace_map :: "WallaceTree \<Rightarrow> error + int list list" where
  "get_wallace_map self =
     (let list_len = result_width self + 2
      in for_each (wallace_map_row self list_len) (range0 (pp_num self)))"

text \<open>\<open>gen_column\<close>: the primary signals of one bit column, one per row whose map
  entry is 1.\<close>

definition pp_ext_name :: "int \<Rightarrow> int \<Rightarrow> string" where
  "pp_ext_name i col = ''pp_ext['' @ str_int i @ '']['' @ str_int col @ '']''"

primrec gen_column_loop ::
  "WallaceTree \<Rightarrow> int \<Rightarrow> int list \<Rightarrow> Signal list \<Rightarrow> error + Signal list" where
  "gen_column_loop self col [] column_list = Inr column_list"
| "gen_column_loop self col (i # rows) column_list =
     (case py_index (tree_map self) i of
        Inl e \<Rightarrow> Inl e
      | Inr r \<Rightarrow>
          (case py_index r col of
             Inl e \<Rightarrow> Inl e
           | Inr v \<Rightarrow>
               gen_column_loop self col rows
                 (if v = 1 then column_list @ [new_Signal (pp_ext_name i col) BOOTH_DELAY None]
                  else column_list)))"

definition gen_column :: "WallaceTree \<Rightarrow> int \<Rightarrow> error + Signal list" where
  "gen_column self col = gen_column_loop self col (range0 (pp_num self)) []"

text \<open>\<open>WallaceTree.__init__\<close>. The attributes are assigned in the source's order;
  \<open>tree_map\<close>, \<open>columns\<close> and \<open>compressors\<close> hold \<open>[]\<close> until their assignment.\<close>

definition WallaceTree_init :: "int \<Rightarrow> string \<Rightarrow> int \<Rightarrow> error + WallaceTree" where
  "WallaceTree_init w pp_name logic_depth =
     (if w < 4 then Inl (ValueError ''Width of the Wallace Tree must be at least 4.'')
      else if logic_depth < 3 then Inl (ValueError ''depth of the logic must be at least 3.'')
      else
        (let self0 = \<lparr>width = w, result_width = 2 * w, pp_num = w div 2 + 1,
                      tree_map = [], columns = [], compressors = []\<rparr>
         in case get_wallace_map self0 of
              Inl e \<Rightarrow> Inl e
            | Inr m \<Rightarrow>
                (let self1 = self0\<lparr>tree_map := m\<rparr>
                 in case for_each (gen_column self1) (range0 (result_width self1)) of
                      Inl e \<Rightarrow> Inl e
                    | Inr cols \<Rightarrow> Inr (self1\<lparr>columns := cols, compressors := []\<rparr>))))"

text \<open>\<open>get_column_num\<close>: the number of live signals of a column.\<close>

definition get_column_num :: "WallaceTree \<Rightarrow> int \<Rightarrow> error + int" where
  "get_column_num self col =
     (if col < 0 \<or> col > result_width self then
        Inl (ValueError (''Column number('' @ str_int col @ '') out of range:[''
                           @ str_int (result_width self - 1) @ '':0].''))
      else (case py_index (columns self) col of
              Inl e \<Rightarrow> Inl e
            | Inr c \<Rightarrow> Inr (int (length c))))"

text \<open>\<open>generate_tree\<close>: the body is \<open>pass\<close>; it returns \<open>None\<close> and the state.\<close>

definition generate_tree :: "WallaceTree \<Rightarrow> unit \<times> WallaceTree" where
  "generate_tree self = ((), self)"

subsection \<open>Column reduction\<close>

text \<open>
  \<open>column_add\<close> mutates the list it is given and the registry
  \<open>self.compressors\<close>, and an exception does not undo what was done before it.
  The model returns the outcome (the exception, or the pair of carries and sums)
  together with the engine state and the list as the call leaves them.
  When the caller passes one of the lists of \<open>self.columns\<close>, the returned list is
  the new content of that entry; the \<open>columns\<close> field of the returned state is not
  touched by the model.
\<close>

type_synonym column_add_result =
  "(error + Signal list \<times> Signal list) \<times> WallaceTree \<times> Signal list"

definition register_compressor :: "WallaceTree \<Rightarrow> Compressor \<Rightarrow> WallaceTree" where
  "register_compressor self c = self\<lparr>compressors := compressors self @ [c]\<rparr>"

function column_add ::
  "WallaceTree \<Rightarrow> Signal list \<Rightarrow> int \<Rightarrow> int \<Rightarrow> int \<Rightarrow> column_add_result" where
  "column_add self col_list col lvl no =
     (if \<not> length col_list > 0 then (Inl AssertionError, self, col_list)
      else if length col_list = 1 then
        (let cleared = []
         in case py_index cleared 0 of
              Inl e \<Rightarrow> (Inl e, self, cleared)
            | Inr s \<Rightarrow> (Inr ([], [s]), self, cleared))
      else if length col_list = 2 then
        (let tmp_compressor = new_Compressor2to1 (col_list ! 0) (col_list ! 1) col lvl no
         in (Inr ([cout tmp_compressor], [c_sum tmp_compressor]),
             register_compressor self tmp_compressor, []))
      else if length col_list = 3 then
        (let tmp_compressor =
               new_Compressor3to2 (col_list ! 0) (col_list ! 1) (col_list ! 2) col lvl no
         in (Inr ([cout tmp_compressor], [c_sum tmp_compressor]),
             register_compressor self tmp_compressor, []))
      else if length col_list = 4 then
        (let tmp_compressor =
               new_Compressor4to2 (col_list ! 0) (col_list ! 1) (col_list ! 2) (col_list ! 3)
                 TIE_LOW col lvl no
         in (Inr ([cout_a tmp_compressor, cout_b tmp_compressor], [c_sum tmp_compressor]),
             register_compressor self tmp_compressor, []))
      else if length col_list = 5 then
        (let tmp_compressor =
               new_Compressor4to2 (col_list ! 0) (col_list ! 1) (col_list ! 2) (col_list ! 3)
                 (col_list ! 4) col lvl no
         in (Inr ([cout_a tmp_compressor, cout_b tmp_compressor], [c_sum tmp_compressor]),
             register_compressor self tmp_compressor, []))
      else
        (let n = length col_list;
             tmp_compressor =
               new_Compressor4to2 (col_list ! (n - 1)) (col_list ! (n - 2)) (col_list ! (n - 3))
                 (col_list ! (n - 4)) (col_list ! (n - 5)) col lvl no;
             self1 = register_compressor self tmp_compressor;
             popped = take (n - 5) col_list;
             tmp_cout = [cout_a tmp_compressor, cout_b tmp_compressor];
             tmp_sum = [c_sum tmp_compressor]
         in case column_add self1 popped col lvl (no + 1) of
              (Inl e, self2, rest) \<Rightarrow> (Inl e, self2, rest)
            | (Inr (cout_remain, sum_remain), self2, rest) \<Rightarrow>
                (Inr (tmp_cout @ cout_remain, tmp_sum @ sum_remain), self2, rest)))"
  by pat_completeness auto
termination
  by (relation "measure (\<lambda>(self, col_list, col, lvl, no). length col_list)") auto

declare column_add.simps [simp del]

subsection \<open>Tree-level reduction\<close>

text \<open>
  \<open>tree_reduce\<close>. \<open>max\<close> of an empty sequence raises ValueError. When every
  column holds at most two signals the names are printed (the output is the value
  returned here). Otherwise every column goes through \<open>column_add\<close>, the carries
  and sums are collected in two local lists, and the method calls itself as
  \<open>self.tree_reduce()\<close>: the two positional parameters are missing, so the call
  raises TypeError before the body runs.
\<close>

fun tree_reduce_loop ::
  "WallaceTree \<Rightarrow> Signal list list \<Rightarrow> int \<Rightarrow> int \<Rightarrow>
     (error + Signal list list \<times> Signal list list) \<times> WallaceTree \<times> Signal list list" where
  "tree_reduce_loop self [] i lvl = (Inr ([], []), self, [])"
| "tree_reduce_loop self (c # cols) i lvl =
     (case column_add self c i lvl 0 of
        (Inl e, self1, c1) \<Rightarrow> (Inl e, self1, c1 # cols)
      | (Inr (carry, sum_o), self1, c1) \<Rightarrow>
          (case tree_reduce_loop self1 cols (i + 1) lvl of
             (Inl e, self2, cols1) \<Rightarrow> (Inl e, self2, c1 # cols1)
           | (Inr (carry_acc, sum_acc), self2, cols1) \<Rightarrow>
               (Inr (carry # carry_acc, sum_o # sum_acc), self2, c1 # cols1)))"

definition max_ValueError :: error where
  "max_ValueError = ValueError ''max() iterable argument is empty''"

definition tree_reduce ::
  "WallaceTree \<Rightarrow> Signal list list \<Rightarrow> int \<Rightarrow>
     (error + string list) \<times> WallaceTree \<times> Signal list list" where
  "tree_reduce self cols lvl =
     (if cols = [] then (Inl max_ValueError, self, cols)
      else if Max (set (map length cols)) \<le> 2 then
        (Inr (map name (concat cols)), self, cols)
      else
        (case tree_reduce_loop self cols 0 lvl of
           (Inl e, self1, cols1) \<Rightarrow> (Inl e, self1, cols1)
         | (Inr (carry_acc, sum_acc), self1, cols1) \<Rightarrow> (Inl TypeError, self1, cols1)))"

subsection \<open>Latencies on which the model is exact\<close>

text \<open>
  The source computes latencies in double precision. \<open>representable\<close> is a sufficient
  condition for a real number to be a double: a multiple of 0.5 of magnitude at most
  \<open>2 ^ 52\<close>. \<open>exact_latency\<close> is the range of input latencies for which every value
  a compressor computes is representable, so that no addition of the delay model rounds
  and the real-number model computes what the source computes: the non-negative multiples
  of 0.5 up to \<open>2 ^ 51\<close>. The latencies the generator creates itself (0 for the tied-low
  signal, 4 for a primary signal, and sums of these with the gate delays) are of this
  kind.
\<close>

definition exact_latency :: "real \<Rightarrow> bool" where
  "exact_latency x = (0 \<le> x \<and> x \<le> 2 ^ 51 \<and> of_int \<lfloor>2 * x\<rfloor> = 2 * x)"

definition representable :: "real \<Rightarrow> bool" where
  "representable x = (\<bar>x\<bar> \<le> 2 ^ 52 \<and> of_int \<lfloor>2 * x\<rfloor> = 2 * x)"

subsection \<open>Closed forms\<close>

text \<open>
  The functions below are not part of the source. They describe in closed form what the
  constructor computes, and serve in the proofs only: \<open>WallaceTree_init_ok\<close> shows that
  \<open>WallaceTree_init\<close>, as translated above, returns exactly \<open>built_tree\<close>.
\<close>

definition row_start :: "int \<Rightarrow> int" where
  "row_start i = (if i \<le> 1 then 0 else i * 2 - 2)"

definition row_width :: "int \<Rightarrow> int \<Rightarrow> int" where
  "row_width w i = (if i = 0 then w + 4 else if i = w div 2 then w + 3 else w + 5)"

definition layout_entry :: "int \<Rightarrow> int \<Rightarrow> int \<Rightarrow> int" where
  "layout_entry w i j = (if row_start i \<le> j \<and> j < row_start i + row_width w i then 1 else 0)"

definition layout :: "int \<Rightarrow> int list list" where
  "layout w = map (\<lambda>i. map (layout_entry w i) (range0 (2 * w + 2))) (range0 (w div 2 + 1))"

definition primary_column :: "int \<Rightarrow> int \<Rightarrow> Signal list" where
  "primary_column w c =
     map (\<lambda>i. new_Signal (pp_ext_name i c) BOOTH_DELAY None)
       (filter (\<lambda>i. layout_entry w i c = 1) (range0 (w div 2 + 1)))"

definition built_tree :: "int \<Rightarrow> WallaceTree" where
  "built_tree w =
     \<lparr>width = w, result_width = 2 * w, pp_num = w div 2 + 1, tree_map = layout w,
      columns = map (primary_column w) (range0 (2 * w)), compressors = []\<rparr>"

section \<open>Properties\<close>

subsection \<open>Compressor delays\<close>

lemmas delay_defs = BOOTH_DELAY_def AND_DELAY_def OR_DELAY_def XOR_DELAY_def
  Compressor2to1_latency_sum_def Compressor2to1_latency_cout_def
  Compressor3to2_latency_sum_def Compressor3to2_latency_cout_def
  Compressor4to2_latency_sum_def Compressor4to2_latency_abcd_def
  Compressor4to2_latency_cin_def Compressor4to2_latency_cout_a_def
  Compressor4to2_latency_cout_b_def

lemma latency_2to1:
  "latency (c_sum (new_Compressor2to1 a b col lvl no)) = max (latency a) (latency b) + 1.5"
  "latency (cout (new_Compressor2to1 a b col lvl no)) = max (latency a) (latency b) + 1.0"
  by (simp_all add: new_Compressor2to1_def Let_def new_Signal_def delay_defs)

lemma latency_3to2:
  "latency (c_sum (new_Compressor3to2 a b c col lvl no)) =
     max (max (latency a) (latency b)) (latency c) + 3.0"
  "latency (cout (new_Compressor3to2 a b c col lvl no)) =
     max (max (latency a) (latency b)) (latency c) + 2.0"
  by (simp_all add: new_Compressor3to2_def Let_def new_Signal_def delay_defs)

lemma latency_4to2:
  "latency (c_sum (new_Compressor4to2 a b c d cin col lvl no)) =
     max (max (max (max (latency a) (latency b)) (latency c)) (latency d)) (latency cin) + 4.5"
  "latency (cout_a (new_Compressor4to2 a b c d cin col lvl no)) =
     max (max (max (max (latency a) (latency b)) (latency c)) (latency d) + 3.0)
         (latency cin + 1.0) + 1.0"
  "latency (cout_b (new_Compressor4to2 a b c d cin col lvl no)) =
     max (max (latency a) (latency b)) (latency c) + 2.0"
  by (simp_all add: new_Compressor4to2_def Let_def new_Signal_def delay_defs)

subsection \<open>Column reduction on short lists\<close>

lemma column_add_empty:
  "column_add self [] col lvl no = (Inl AssertionError, self, [])"
  by (simp add: column_add.simps)

lemma column_add_one:
  "column_add self [s] col lvl no = (Inl IndexError, self, [])"
  by (simp add: column_add.simps py_index_def)

lemma column_add_two:
  "column_add self [a, b] col lvl no =
     (Inr ([cout (new_Compressor2to1 a b col lvl no)],
           [c_sum (new_Compressor2to1 a b col lvl no)]),
      register_compressor self (new_Compressor2to1 a b col lvl no), [])"
  by (simp add: column_add.simps Let_def)

text \<open>
  C6: the output latencies of every compressor are the fixed delay formulas (AND = 1.0,
  OR = 1.0, XOR = 1.5): 2:1 gives sum = max(a,b) + 1.5 and carry = max(a,b) + 1.0; 3:2
  gives sum = max(a,b,c) + 3.0 and carry = max(a,b,c) + 2.0; 4:2 gives
  sum = max(a,b,c,d,cin) + 4.5, carry\_a = max(max(max(a,b,c),d) + 3.0, cin + 1.0) + 1.0
  and carry\_b = max(a,b,c) + 2.0. Reducing a column of two signals of latency L returns
  one carry of latency L + 1.0 and one sum of latency L + 1.5.
\<close>

theorem compressor_delay_formulas:
  "latency (c_sum (new_Compressor2to1 a b col lvl no)) = max (latency a) (latency b) + 1.5
   \<and> latency (cout (new_Compressor2to1 a b col lvl no)) = max (latency a) (latency b) + 1.0
   \<and> latency (c_sum (new_Compressor3to2 a b c col lvl no)) =
       max (max (latency a) (latency b)) (latency c) + 3.0
   \<and> latency (cout (new_Compressor3to2 a b c col lvl no)) =
       max (max (latency a) (latency b)) (latency c) + 2.0
   \<and> latency (c_sum (new_Compressor4to2 a b c d cin col lvl no)) =
       max (max (max (max (latency a) (latency b)) (latency c)) (latency d)) (latency cin) + 4.5
   \<and> latency (cout_a (new_Compressor4to2 a b c d cin col lvl no)) =
       max (max (max (max (latency a) (latency b)) (latency c)) (latency d) + 3.0)
           (latency cin + 1.0) + 1.0
   \<and> latency (cout_b (new_Compressor4to2 a b c d cin col lvl no)) =
       max (max (latency a) (latency b)) (latency c) + 2.0
   \<and> (latency sa = L \<and> latency sb = L \<longrightarrow>
        (\<exists>carry sum_o self1.
           column_add self [sa, sb] col lvl no = (Inr ([carry], [sum_o]), self1, [])
           \<and> latency carry = L + 1.0 \<and> latency sum_o = L + 1.5))"
  by (simp add: latency_2to1 latency_3to2 latency_4to2 column_add_two)

theorem compressor_delay_formulas_witness:
  "latency (new_Signal ''x'' 4 None) = 4 \<and> latency (new_Signal ''y'' 4 None) = 4
   \<and> (\<exists>carry sum_o self1.
         column_add \<lparr>width = 4, result_width = 8, pp_num = 3, tree_map = [], columns = [],
                      compressors = []\<rparr>
           [new_Signal ''x'' 4 None, new_Signal ''y'' 4 None] 0 0 0
           = (Inr ([carry], [sum_o]), self1, [])
         \<and> latency carry = 4 + 1.0 \<and> latency sum_o = 4 + 1.5)"
proof -
  have h: "latency (new_Signal ''x'' 4 None) = 4 \<and> latency (new_Signal ''y'' 4 None) = 4"
    by (simp add: new_Signal_def)
  from compressor_delay_formulas
         [where sa = "new_Signal ''x'' 4 None" and sb = "new_Signal ''y'' 4 None" and L = 4
            and self = "\<lparr>width = 4, result_width = 8, pp_num = 3, tree_map = [],
                         columns = [], compressors = []\<rparr>"
            and col = 0 and lvl = 0 and no = 0] h
  show ?thesis by blast
qed

lemma exact_latency_max:
  "exact_latency x \<Longrightarrow> exact_latency y \<Longrightarrow> exact_latency (max x y)"
  by (simp add: max_def)

lemma half_integer_iff: "(of_int \<lfloor>y\<rfloor> = (y::real)) = (y \<in> \<int>)"
  by (auto simp: Ints_def)

lemma half_integer_add:
  assumes "of_int \<lfloor>2 * x\<rfloor> = 2 * (x::real)" "of_int \<lfloor>2 * k\<rfloor> = 2 * (k::real)"
  shows "of_int \<lfloor>2 * (x + k)\<rfloor> = 2 * (x + k)"
proof -
  from assms have "2 * x \<in> \<int>" "2 * k \<in> \<int>"
    by (simp_all only: half_integer_iff)
  then have "2 * x + 2 * k \<in> \<int>" by (rule Ints_add)
  then have "2 * (x + k) \<in> \<int>" by (simp only: distrib_left)
  then show ?thesis by (simp only: half_integer_iff)
qed

lemma representable_add:
  assumes "exact_latency x" "0 \<le> k" "k \<le> 5" "of_int \<lfloor>2 * k\<rfloor> = 2 * k"
  shows "representable (x + k)"
proof -
  from assms(1) have x: "0 \<le> x" "x \<le> 2 ^ 51" "of_int \<lfloor>2 * x\<rfloor> = 2 * x"
    by (simp_all add: exact_latency_def)
  have "\<bar>x + k\<bar> \<le> 2 ^ 51 + 5" using x assms(2,3) by simp
  also have "\<dots> \<le> (2::real) ^ 52" by simp
  finally have "\<bar>x + k\<bar> \<le> 2 ^ 52" .
  with half_integer_add [OF x(3) assms(4)] show ?thesis
    by (simp add: representable_def)
qed

lemma representable_max:
  "representable x \<Longrightarrow> representable y \<Longrightarrow> representable (max x y)"
  by (simp add: max_def)

text \<open>
  C4 (as amended): for input latencies that are non-negative multiples of 0.5 up to
  \<open>2 ^ 51\<close> (on these the delay additions are exact in double precision), every output
  of the 2:1 and 3:2 compressors and the sum and carry\_a outputs of the 4:2 compressor
  have a latency of at least the maximum of all input latencies plus AND = 1.0. The
  carry\_b output of the 4:2 compressor has latency exactly max(a, b, c) + 2.0, whatever d
  and cin are: it is earlier than d whenever d is later than max(a, b, c) + 2.0, and
  earlier than cin whenever cin is later than max(a, b, c) + 2.0. Every output latency is
  again a multiple of 0.5 of magnitude at most \<open>2 ^ 52\<close>.
\<close>

theorem compressor_output_latency_bounds:
  assumes "exact_latency (latency a)" "exact_latency (latency b)" "exact_latency (latency c)"
    "exact_latency (latency d)" "exact_latency (latency cin)"
  shows
  "max (latency a) (latency b) + 1.0 \<le> latency (c_sum (new_Compressor2to1 a b col lvl no))
   \<and> max (latency a) (latency b) + 1.0 \<le> latency (cout (new_Compressor2to1 a b col lvl no))
   \<and> max (max (latency a) (latency b)) (latency c) + 1.0
       \<le> latency (c_sum (new_Compressor3to2 a b c col lvl no))
   \<and> max (max (latency a) (latency b)) (latency c) + 1.0
       \<le> latency (cout (new_Compressor3to2 a b c col lvl no))
   \<and> max (max (max (max (latency a) (latency b)) (latency c)) (latency d)) (latency cin) + 1.0
       \<le> latency (c_sum (new_Compressor4to2 a b c d cin col lvl no))
   \<and> max (max (max (max (latency a) (latency b)) (latency c)) (latency d)) (latency cin) + 1.0
       \<le> latency (cout_a (new_Compressor4to2 a b c d cin col lvl no))
   \<and> latency (cout_b (new_Compressor4to2 a b c d cin col lvl no))
       = max (max (latency a) (latency b)) (latency c) + 2.0
   \<and> (max (max (latency a) (latency b)) (latency c) + 2.0 < latency d \<longrightarrow>
        latency (cout_b (new_Compressor4to2 a b c d cin col lvl no)) < latency d)
   \<and> (max (max (latency a) (latency b)) (latency c) + 2.0 < latency cin \<longrightarrow>
        latency (cout_b (new_Compressor4to2 a b c d cin col lvl no)) < latency cin)
   \<and> representable (latency (c_sum (new_Compressor2to1 a b col lvl no)))
   \<and> representable (latency (cout (new_Compressor2to1 a b col lvl no)))
   \<and> representable (latency (c_sum (new_Compressor3to2 a b c col lvl no)))
   \<and> representable (latency (cout (new_Compressor3to2 a b c col lvl no)))
   \<and> representable (latency (c_sum (new_Compressor4to2 a b c d cin col lvl no)))
   \<and> representable (latency (cout_a (new_Compressor4to2 a b c d cin col lvl no)))
   \<and> representable (latency (cout_b (new_Compressor4to2 a b c d cin col lvl no)))"
proof -
  have bounds:
    "max (latency a) (latency b) + 1.0 \<le> max (latency a) (latency b) + 1.5"
    "max (max (latency a) (latency b)) (latency c) + 1.0
       \<le> max (max (latency a) (latency b)) (latency c) + 3.0"
    "max (max (latency a) (latency b)) (latency c) + 1.0
       \<le> max (max (latency a) (latency b)) (latency c) + 2.0"
    "max (max (max (max (latency a) (latency b)) (latency c)) (latency d)) (latency cin) + 1.0
       \<le> max (max (max (max (latency a) (latency b)) (latency c)) (latency d)) (latency cin) + 4.5"
    "max (max (max (max (latency a) (latency b)) (latency c)) (latency d)) (latency cin) + 1.0
       \<le> max (max (max (max (latency a) (latency b)) (latency c)) (latency d) + 3.0)
             (latency cin + 1.0) + 1.0"
    by (simp_all add: max_def)
  have m2: "exact_latency (max (latency a) (latency b))"
    using assms by (intro exact_latency_max)
  have m3: "exact_latency (max (max (latency a) (latency b)) (latency c))"
    using assms by (intro exact_latency_max)
  have m4: "exact_latency (max (max (max (latency a) (latency b)) (latency c)) (latency d))"
    using assms by (intro exact_latency_max)
  have m5: "exact_latency
      (max (max (max (max (latency a) (latency b)) (latency c)) (latency d)) (latency cin))"
    using assms by (intro exact_latency_max)
  have r: "representable (max (latency a) (latency b) + 1.5)"
    "representable (max (latency a) (latency b) + 1.0)"
    "representable (max (max (latency a) (latency b)) (latency c) + 3.0)"
    "representable (max (max (latency a) (latency b)) (latency c) + 2.0)"
    "representable
       (max (max (max (max (latency a) (latency b)) (latency c)) (latency d)) (latency cin) + 4.5)"
    using m2 m3 m5 by (auto intro!: representable_add)
  have "representable
      (max (max (max (max (latency a) (latency b)) (latency c)) (latency d) + 4.0)
           (latency cin + 2.0))"
    using m4 assms(5) by (auto intro!: representable_max representable_add)
  moreover have
    "max (max (max (max (latency a) (latency b)) (latency c)) (latency d) + 4.0)
         (latency cin + 2.0)
     = max (max (max (max (latency a) (latency b)) (latency c)) (latency d) + 3.0)
           (latency cin + 1.0) + 1.0"
    by (simp add: max_def)
  ultimately have ra: "representable
      (max (max (max (max (latency a) (latency b)) (latency c)) (latency d) + 3.0)
           (latency cin + 1.0) + 1.0)"
    by (simp only:)
  show ?thesis
    unfolding latency_2to1 latency_3to2 latency_4to2
    by (intro conjI impI bounds r ra refl) simp_all
qed

theorem compressor_output_latency_bounds_witness:
  "exact_latency (latency (new_Signal ''a'' 4 None))
   \<and> exact_latency (latency (new_Signal ''b'' 4 None))
   \<and> exact_latency (latency (new_Signal ''c'' 4 None))
   \<and> exact_latency (latency (new_Signal ''d'' 10 None))
   \<and> exact_latency (latency (new_Signal ''cin'' 10 None))
   \<and> 11 \<le> latency (c_sum (new_Compressor4to2 (new_Signal ''a'' 4 None)
                 (new_Signal ''b'' 4 None) (new_Signal ''c'' 4 None) (new_Signal ''d'' 10 None)
                 (new_Signal ''cin'' 10 None) 0 0 0))
   \<and> 11 \<le> latency (cout_a (new_Compressor4to2 (new_Signal ''a'' 4 None)
                 (new_Signal ''b'' 4 None) (new_Signal ''c'' 4 None) (new_Signal ''d'' 10 None)
                 (new_Signal ''cin'' 10 None) 0 0 0))
   \<and> latency (cout_b (new_Compressor4to2 (new_Signal ''a'' 4 None)
                 (new_Signal ''b'' 4 None) (new_Signal ''c'' 4 None) (new_Signal ''d'' 10 None)
                 (new_Signal ''cin'' 10 None) 0 0 0)) = 6
   \<and> latency (cout_b (new_Compressor4to2 (new_Signal ''a'' 4 None)
                 (new_Signal ''b'' 4 None) (new_Signal ''c'' 4 None) (new_Signal ''d'' 10 None)
                 (new_Signal ''cin'' 10 None) 0 0 0)) < latency (new_Signal ''d'' 10 None)
   \<and> latency (cout_b (new_Compressor4to2 (new_Signal ''a'' 4 None)
                 (new_Signal ''b'' 4 None) (new_Signal ''c'' 4 None) (new_Signal ''d'' 10 None)
                 (new_Signal ''cin'' 10 None) 0 0 0)) < latency (new_Signal ''cin'' 10 None)
   \<and> representable (latency (cout_b (new_Compressor4to2 (new_Signal ''a'' 4 None)
                 (new_Signal ''b'' 4 None) (new_Signal ''c'' 4 None) (new_Signal ''d'' 10 None)
                 (new_Signal ''cin'' 10 None) 0 0 0)))"
proof -
  have h: "exact_latency (latency (new_Signal ''a'' 4 None))"
    "exact_latency (latency (new_Signal ''b'' 4 None))"
    "exact_latency (latency (new_Signal ''c'' 4 None))"
    "exact_latency (latency (new_Signal ''d'' 10 None))"
    "exact_latency (latency (new_Signal ''cin'' 10 None))"
    by (simp_all add: exact_latency_def new_Signal_def)
  from compressor_output_latency_bounds [OF h, of 0 0 0] show ?thesis
    by (simp add: new_Signal_def exact_latency_def representable_def)
qed

text \<open>
  C4 as stated fails: a 4:2 compressor whose inputs a, b, c arrive at 0 and whose inputs
  d and cin arrive at 10 has its carry\_b output at 2, earlier than its inputs d and cin.
  All five input latencies are non-negative.
\<close>

theorem compressor_cout_b_counterexample:
  "latency (cout_b (new_Compressor4to2 (new_Signal ''a'' 0 None) (new_Signal ''b'' 0 None)
                      (new_Signal ''c'' 0 None) (new_Signal ''d'' 10 None)
                      (new_Signal ''cin'' 10 None) 0 0 0))
     < latency (new_Signal ''d'' 10 None)
   \<and> latency (cout_b (new_Compressor4to2 (new_Signal ''a'' 0 None) (new_Signal ''b'' 0 None)
                      (new_Signal ''c'' 0 None) (new_Signal ''d'' 10 None)
                      (new_Signal ''cin'' 10 None) 0 0 0))
     < latency (new_Signal ''cin'' 10 None)
   \<and> 0 \<le> latency (new_Signal ''a'' 0 None) \<and> 0 \<le> latency (new_Signal ''b'' 0 None)
   \<and> 0 \<le> latency (new_Signal ''c'' 0 None) \<and> 0 \<le> latency (new_Signal ''d'' 10 None)
   \<and> 0 \<le> latency (new_Signal ''cin'' 10 None)"
  by (simp add: latency_4to2 new_Signal_def)

text \<open>
  C2: \<open>column_add\<close> on a list of exactly one signal. The source clears the list and
  then reads \<open>col_list[0]\<close> from it: the call raises IndexError, creates no compressor
  and leaves the list empty. It does not return \<open>([], [s])\<close>.
\<close>

theorem column_add_single_signal:
  "column_add self [s] col lvl no = (Inl IndexError, self, [])
   \<and> fst (column_add self [s] col lvl no) \<noteq> Inr ([], [s])"
  by (simp add: column_add_one)

text \<open>
  C3: \<open>column_add\<close> on six signals. A 4:2 compressor is created on the five signals
  at the tail of the list (the last one as input a) and registered, the five are removed,
  and the recursive call on the one remaining signal raises IndexError: no sums and no
  carries are returned.
\<close>

theorem column_add_six_signals:
  "column_add self [s1, s2, s3, s4, s5, s6] col lvl no =
     (Inl IndexError,
      register_compressor self (new_Compressor4to2 s6 s5 s4 s3 s2 col lvl no), [])"
  by (simp add: column_add.simps [of _ "[s1, s2, s3, s4, s5, s6]"] column_add_one Let_def)

subsection \<open>Tree-level reduction\<close>

lemma tree_reduce_never_reduces:
  "cols \<noteq> [] \<Longrightarrow> \<not> Max (set (map length cols)) \<le> 2 \<Longrightarrow>
     \<exists>e. fst (tree_reduce self cols lvl) = Inl e"
  by (auto simp: tree_reduce_def split: prod.splits sum.splits)

text \<open>
  C1: \<open>tree_reduce\<close> on the columns of the width-4 tree (two columns of 2 signals and
  six of 3). One pass of \<open>column_add\<close> creates 8 compressors and empties every column;
  the carries and sums stay in local lists and are never put back, and the recursive
  call \<open>self.tree_reduce()\<close> raises TypeError. There is no second level, no
  redistribution of carries to the next column and no bound by \<open>logic_depth\<close>.
\<close>

theorem tree_reduce_width_4:
  "(case WallaceTree_init 4 ''pp'' 20 of
      Inl e \<Rightarrow> False
    | Inr t \<Rightarrow>
        (case tree_reduce t (columns t) 0 of
           (r, self1, cols1) \<Rightarrow>
             map length (columns t) = [2, 2, 3, 3, 3, 3, 3, 3]
             \<and> r = Inl TypeError
             \<and> length (compressors self1) = 8
             \<and> cols1 = replicate 8 []))"
  by code_simp

subsection \<open>Construction\<close>

lemma for_each_map:
  "(\<And>x. x \<in> set xs \<Longrightarrow> f x = Inr (g x)) \<Longrightarrow> for_each f xs = Inr (map g xs)"
  by (induction xs) simp_all

lemma set_range0: "set (range0 n) = {0..<n}"
  by (auto simp: range0_def)

lemma length_range0: "length (range0 n) = nat n"
  by (simp add: range0_def)

lemma nth_range0: "k < nat n \<Longrightarrow> range0 n ! k = int k"
  by (simp add: range0_def)

lemma get_pp_width_in_range:
  assumes "width self = w" "pp_num self = w div 2 + 1" "0 \<le> i" "i < w div 2 + 1"
  shows "get_pp_width self i = Inr (row_width w i)"
  using assms by (simp add: get_pp_width_def row_width_def)

lemma wallace_map_row_ok:
  assumes "width self = w" "pp_num self = w div 2 + 1" "0 \<le> i" "i < w div 2 + 1"
  shows "wallace_map_row self n i = Inr (map (layout_entry w i) (range0 n))"
  unfolding wallace_map_row_def Let_def
  by (rule for_each_map)
     (simp add: wallace_map_entry_def get_pp_width_in_range [OF assms] layout_entry_def
        row_start_def)

lemma get_wallace_map_ok:
  assumes "width self = w" "pp_num self = w div 2 + 1" "result_width self = 2 * w"
  shows "get_wallace_map self = Inr (layout w)"
  unfolding get_wallace_map_def Let_def layout_def assms
  by (rule for_each_map) (simp add: set_range0 wallace_map_row_ok [OF assms(1,2)])

lemma length_layout: "length (layout w) = nat (w div 2 + 1)"
  by (simp add: layout_def length_range0)

lemma layout_row:
  "0 \<le> i \<Longrightarrow> i < w div 2 + 1 \<Longrightarrow>
     layout w ! nat i = map (layout_entry w i) (range0 (2 * w + 2))"
  by (simp add: layout_def length_range0 nth_range0)

lemma layout_nth:
  "0 \<le> i \<Longrightarrow> i < w div 2 + 1 \<Longrightarrow> 0 \<le> j \<Longrightarrow> j < 2 * w + 2 \<Longrightarrow>
     layout w ! nat i ! nat j = layout_entry w i j"
  by (simp add: layout_row length_range0 nth_range0)

lemma py_index_in_range:
  "0 \<le> i \<Longrightarrow> i < int (length xs) \<Longrightarrow> py_index xs i = Inr (xs ! nat i)"
  by (simp add: py_index_def)

lemma gen_column_loop_ok:
  assumes "tree_map self = layout w" "0 \<le> c" "c < 2 * w + 2"
  shows "set rows \<subseteq> {0..<w div 2 + 1} \<Longrightarrow>
     gen_column_loop self c rows acc =
       Inr (acc @ map (\<lambda>i. new_Signal (pp_ext_name i c) BOOTH_DELAY None)
                    (filter (\<lambda>i. layout_entry w i c = 1) rows))"
proof (induction rows arbitrary: acc)
  case Nil
  then show ?case by simp
next
  case (Cons i rows)
  then have i: "0 \<le> i" "i < w div 2 + 1" by auto
  have r: "py_index (layout w) i = Inr (map (layout_entry w i) (range0 (2 * w + 2)))"
    using i by (simp add: py_index_in_range length_layout layout_row)
  have e: "py_index (map (layout_entry w i) (range0 (2 * w + 2))) c = Inr (layout_entry w i c)"
    using assms(2,3) by (simp add: py_index_in_range length_range0 nth_range0)
  from Cons show ?case by (simp add: assms(1) r e)
qed

lemma gen_column_ok:
  assumes "tree_map self = layout w" "pp_num self = w div 2 + 1" "0 \<le> c" "c < 2 * w + 2"
  shows "gen_column self c = Inr (primary_column w c)"
  unfolding gen_column_def primary_column_def assms(2)
  using gen_column_loop_ok [OF assms(1,3,4), of "range0 (w div 2 + 1)" "[]"]
  by (simp add: set_range0)

lemma WallaceTree_init_ok:
  assumes "4 \<le> w" "3 \<le> d"
  shows "WallaceTree_init w nm d = Inr (built_tree w)"
proof -
  let ?self0 = "\<lparr>width = w, result_width = 2 * w, pp_num = w div 2 + 1,
                  tree_map = [], columns = [], compressors = []\<rparr>"
  have m: "get_wallace_map ?self0 = Inr (layout w)"
    by (rule get_wallace_map_ok) simp_all
  have c: "for_each (gen_column (?self0\<lparr>tree_map := layout w\<rparr>)) (range0 (2 * w))
             = Inr (map (primary_column w) (range0 (2 * w)))"
    by (rule for_each_map) (simp add: set_range0 gen_column_ok)
  show ?thesis
    using assms c by (simp add: WallaceTree_init_def Let_def m built_tree_def)
qed

lemma WallaceTree_init_fail:
  "w < 4 \<or> d < 3 \<Longrightarrow> \<exists>msg. WallaceTree_init w nm d = Inl (ValueError msg)"
  by (auto simp: WallaceTree_init_def)

lemma WallaceTree_init_cases:
  assumes "WallaceTree_init w nm d = Inr t"
  shows "4 \<le> w \<and> 3 \<le> d \<and> t = built_tree w"
proof -
  have "\<not> (w < 4 \<or> d < 3)"
    using assms WallaceTree_init_fail [of w d nm] by auto
  then have "4 \<le> w" "3 \<le> d" by simp_all
  with assms WallaceTree_init_ok [of w d nm] show ?thesis by simp
qed

text \<open>
  C10: construction raises ValueError exactly when \<open>width < 4\<close> or
  \<open>logic_depth < 3\<close>, and raises nothing else; for every \<open>width \<ge> 4\<close> and
  \<open>logic_depth \<ge> 3\<close> it succeeds with \<open>result_width = 2 * width\<close> and
  \<open>pp_num = width div 2 + 1\<close>.
\<close>

theorem WallaceTree_init_validation:
  "((\<exists>msg. WallaceTree_init w nm d = Inl (ValueError msg)) = (w < 4 \<or> d < 3))
   \<and> ((\<exists>e. WallaceTree_init w nm d = Inl e) = (w < 4 \<or> d < 3))
   \<and> (4 \<le> w \<and> 3 \<le> d \<longrightarrow>
        (\<exists>t. WallaceTree_init w nm d = Inr t \<and> width t = w \<and> result_width t = 2 * w
              \<and> pp_num t = w div 2 + 1))"
proof (cases "w < 4 \<or> d < 3")
  case True
  with WallaceTree_init_fail [OF True, of nm] show ?thesis by auto
next
  case False
  then have "WallaceTree_init w nm d = Inr (built_tree w)"
    by (simp add: WallaceTree_init_ok)
  with False show ?thesis by (simp add: built_tree_def)
qed

theorem WallaceTree_init_validation_witness:
  "(4::int) \<le> 4 \<and> (3::int) \<le> 3
   \<and> (\<exists>t. WallaceTree_init 4 ''pp'' 3 = Inr t \<and> width t = 4 \<and> result_width t = 8
           \<and> pp_num t = 3)"
  using WallaceTree_init_validation [of 4 "''pp''" 3] by simp

text \<open>
  C8: after a successful construction the compressor registry is empty, and
  \<open>generate_tree\<close> returns \<open>None\<close> and leaves the whole engine state (width, pp\_num,
  tree\_map, columns, registry) as it was.
\<close>

theorem generate_tree_no_effect:
  assumes "WallaceTree_init w nm d = Inr t"
  shows "compressors t = [] \<and> generate_tree t = ((), t)"
  using WallaceTree_init_cases [OF assms] by (simp add: generate_tree_def built_tree_def)

theorem generate_tree_no_effect_witness:
  "WallaceTree_init 4 ''pp'' 20 = Inr (built_tree 4)
   \<and> compressors (built_tree 4) = []
   \<and> generate_tree (built_tree 4) = ((), built_tree 4)"
proof -
  have h: "WallaceTree_init 4 ''pp'' 20 = Inr (built_tree 4)"
    by (rule WallaceTree_init_ok) simp_all
  from generate_tree_no_effect [OF h] h show ?thesis by simp
qed

lemma get_pp_width_range_error:
  "(\<exists>msg. get_pp_width self row = Inl (ValueError msg)) = (row < 0 \<or> pp_num self \<le> row)"
  "(row < 0 \<or> pp_num self \<le> row) \<Longrightarrow>
     get_pp_width self row =
       Inl (ValueError (''Row number('' @ str_int row @ '') out of range:[''
                          @ str_int (pp_num self - 1) @ '':0].''))"
  "0 \<le> row \<Longrightarrow> row < pp_num self \<Longrightarrow> \<exists>n. get_pp_width self row = Inr n"
  by (auto simp: get_pp_width_def)

lemma get_column_num_ValueError:
  "(\<exists>msg. get_column_num self c = Inl (ValueError msg)) = (c < 0 \<or> result_width self < c)"
  by (auto simp: get_column_num_def py_index_def split: sum.splits if_splits)

lemma built_tree_fields:
  "width (built_tree w) = w" "result_width (built_tree w) = 2 * w"
  "pp_num (built_tree w) = w div 2 + 1" "tree_map (built_tree w) = layout w"
  "columns (built_tree w) = map (primary_column w) (range0 (2 * w))"
  "compressors (built_tree w) = []"
  by (simp_all add: built_tree_def)

lemma get_column_num_in_range:
  assumes "WallaceTree_init w nm d = Inr t" "0 \<le> c" "c < result_width t"
  shows "\<exists>n. get_column_num t c = Inr n"
proof -
  from WallaceTree_init_cases [OF assms(1)] have t: "t = built_tree w" by simp
  with assms(2,3) show ?thesis
    by (simp add: get_column_num_def py_index_in_range built_tree_fields length_range0)
qed

lemma get_column_num_at_result_width:
  assumes "WallaceTree_init w nm d = Inr t"
  shows "get_column_num t (result_width t) = Inl IndexError"
proof -
  from WallaceTree_init_cases [OF assms(1)] have t: "t = built_tree w" "4 \<le> w" by simp_all
  then show ?thesis
    by (simp add: get_column_num_def py_index_def built_tree_fields length_range0)
qed

text \<open>
  C9: on the width-4 tree (\<open>result_width = 8\<close>, eight column lists),
  \<open>get_column_num\<close> answers 3 for column 7, raises the ValueError that reports the
  index for column 9, but for column 8 = \<open>result_width\<close> the guard
  \<open>column > self.result_width\<close> lets the index through and the list access raises
  IndexError, which reports no index. The message of the ValueError gives the valid range
  as \<open>[result_width - 1 : 0]\<close>.
\<close>

theorem get_column_num_width_4:
  "\<not> isl (WallaceTree_init 4 ''pp'' 20)
   \<and> result_width (projr (WallaceTree_init 4 ''pp'' 20)) = 8
   \<and> get_column_num (projr (WallaceTree_init 4 ''pp'' 20)) 7 = Inr 3
   \<and> get_column_num (projr (WallaceTree_init 4 ''pp'' 20)) 8 = Inl IndexError
   \<and> get_column_num (projr (WallaceTree_init 4 ''pp'' 20)) 9
       = Inl (ValueError ''Column number(9) out of range:[7:0].'')"
  by code_simp

subsection \<open>Layout and primary signals\<close>

lemma distinct_range0: "distinct (range0 n)"
  by (simp add: range0_def)

lemma sum_list_range0: "sum_list (map f (range0 n)) = (\<Sum>j\<in>{0..<n}. f j)"
  by (simp add: sum_list_distinct_conv_sum_set distinct_range0 set_range0)

lemma sum_indicator_interval:
  fixes a b n :: int
  shows "(\<Sum>j\<in>{0..<n}. if a \<le> j \<and> j < b then 1 else 0) = max 0 (min b n - max a 0)"
proof -
  have s: "{0..<n} \<inter> {j. a \<le> j \<and> j < b} = {max a 0..<min b n}"
    by auto
  have "(\<Sum>j\<in>{0..<n}. if a \<le> j \<and> j < b then 1 else 0)
          = int (card ({0..<n} \<inter> {j. a \<le> j \<and> j < b}))"
    by (simp add: sum.If_cases)
  also have "\<dots> = int (nat (min b n - max a 0))"
    unfolding s by simp
  also have "\<dots> = max 0 (min b n - max a 0)"
    by (simp add: max_def)
  finally show ?thesis .
qed

lemma layout_entry_01: "layout_entry w i j = 0 \<or> layout_entry w i j = 1"
  by (simp add: layout_entry_def)

lemma row_bounds:
  assumes "4 \<le> w" "0 \<le> i" "i < w div 2 + 1"
  shows "0 \<le> row_start i" "0 \<le> row_width w i" "row_start i + row_width w i \<le> 2 * w + 2"
  using assms by (auto simp: row_start_def row_width_def)

lemma sum_list_layout_row:
  assumes "4 \<le> w" "0 \<le> i" "i < w div 2 + 1"
  shows "sum_list (layout w ! nat i) = row_width w i"
proof -
  have "sum_list (layout w ! nat i)
          = (\<Sum>j\<in>{0..<2 * w + 2}. layout_entry w i j)"
    using assms by (simp add: layout_row sum_list_range0)
  also have "\<dots> = max 0 (min (row_start i + row_width w i) (2 * w + 2) - max (row_start i) 0)"
    unfolding layout_entry_def by (rule sum_indicator_interval)
  also have "\<dots> = row_width w i"
    using row_bounds [OF assms] by simp
  finally show ?thesis .
qed

lemma length_filter_indicator:
  "(\<And>x. f x = 0 \<or> f x = (1::int)) \<Longrightarrow>
     int (length (filter (\<lambda>x. f x = 1) xs)) = sum_list (map f xs)"
proof (induction xs)
  case Nil
  then show ?case by simp
next
  case (Cons x xs)
  from Cons.prems [of x] Cons.IH [OF Cons.prems] show ?case by auto
qed

lemma length_primary_column:
  "int (length (primary_column w c)) = (\<Sum>i\<in>{0..<w div 2 + 1}. layout_entry w i c)"
  unfolding primary_column_def length_map
  by (simp add: length_filter_indicator [OF layout_entry_01] sum_list_range0)

lemma int_sum_list_map: "int (sum_list (map g xs)) = sum_list (map (\<lambda>x. int (g x)) xs)"
  by (induction xs) simp_all

lemma total_primary_signals:
  "int (sum_list (map length (columns (built_tree w))))
     = (\<Sum>c\<in>{0..<2 * w}. \<Sum>i\<in>{0..<w div 2 + 1}. layout_entry w i c)"
  by (simp add: built_tree_fields int_sum_list_map comp_def length_primary_column
        sum_list_range0)

lemma take_range0: "0 \<le> n \<Longrightarrow> 0 \<le> k \<Longrightarrow> take (nat n) (range0 (n + k)) = range0 n"
  by (rule nth_equalityI) (simp_all add: length_range0 nth_range0)

lemma layout_sum_restricted:
  assumes "0 \<le> w"
  shows "sum_list (map (\<lambda>r. sum_list (take (nat (2 * w)) r)) (layout w))
     = (\<Sum>i\<in>{0..<w div 2 + 1}. \<Sum>c\<in>{0..<2 * w}. layout_entry w i c)"
proof -
  have "take (nat (2 * w)) (range0 (2 * w + 2)) = range0 (2 * w)"
    using assms by (intro take_range0) simp_all
  then show ?thesis
    by (simp add: layout_def comp_def take_map sum_list_range0)
qed

lemma layout_sum_total:
  "sum_list (map sum_list (layout w))
     = (\<Sum>i\<in>{0..<w div 2 + 1}. \<Sum>c\<in>{0..<2 * w + 2}. layout_entry w i c)"
  by (simp add: layout_def comp_def sum_list_range0)

lemma split_last_two:
  fixes f :: "int \<Rightarrow> int"
  assumes "0 \<le> n"
  shows "(\<Sum>c\<in>{0..<n + 2}. f c) = (\<Sum>c\<in>{0..<n}. f c) + f n + f (n + 1)"
proof -
  have "{0..<n + 2} = {0..<n} \<union> {n, n + 1}" using assms by auto
  moreover have "{0..<n} \<inter> {n, n + 1} = {}" by auto
  ultimately show ?thesis by (simp add: sum.union_disjoint)
qed

lemma overflow_column_rows:
  assumes "4 \<le> w"
  shows "{i \<in> {0..<w div 2 + 1}. layout_entry w i (2 * w) = 1}
           = (if even w then {w div 2 - 1, w div 2} else {})"
  using assms
  by (auto simp: layout_entry_def row_start_def row_width_def split: if_splits elim!: evenE oddE)

lemma last_column_rows:
  assumes "4 \<le> w" "0 \<le> i" "i < w div 2 + 1"
  shows "layout_entry w i (2 * w + 1) = 0"
  using assms
  by (auto simp: layout_entry_def row_start_def row_width_def split: if_splits)


lemma count_list_concat:
  "count_list (concat xss) x = sum_list (map (\<lambda>xs. count_list xs x) xss)"
  by (induction xss) simp_all

lemma count_list_indicator:
  "(\<And>x. f x = 0 \<or> f x = (1::int)) \<Longrightarrow> int (count_list (map f xs) 1) = sum_list (map f xs)"
proof (induction xs)
  case Nil
  then show ?case by simp
next
  case (Cons x xs)
  from Cons.prems [of x] Cons.IH [OF Cons.prems] show ?case by auto
qed

lemma count_layout_row:
  assumes "4 \<le> w" "0 \<le> i" "i < w div 2 + 1"
  shows "int (count_list (layout w ! nat i) 1) = row_width w i"
proof -
  have "int (count_list (layout w ! nat i) 1) = sum_list (layout w ! nat i)"
    using assms by (simp add: layout_row count_list_indicator [OF layout_entry_01])
  then show ?thesis by (simp add: sum_list_layout_row [OF assms])
qed

lemma count_layout_total:
  "int (count_list (concat (layout w)) 1)
     = (\<Sum>i\<in>{0..<w div 2 + 1}. \<Sum>c\<in>{0..<2 * w + 2}. layout_entry w i c)"
  by (simp add: count_list_concat int_sum_list_map layout_def comp_def
        count_list_indicator [OF layout_entry_01] sum_list_range0)

lemma count_layout_restricted:
  assumes "0 \<le> w"
  shows "int (count_list (concat (map (take (nat (2 * w))) (layout w))) 1)
     = (\<Sum>i\<in>{0..<w div 2 + 1}. \<Sum>c\<in>{0..<2 * w}. layout_entry w i c)"
proof -
  have "take (nat (2 * w)) (range0 (2 * w + 2)) = range0 (2 * w)"
    using assms by (intro take_range0) simp_all
  then show ?thesis
    by (simp add: count_list_concat int_sum_list_map layout_def comp_def take_map
          count_list_indicator [OF layout_entry_01] sum_list_range0)
qed

lemma total_primary_signals_concat:
  "int (length (concat (columns (built_tree w))))
     = (\<Sum>i\<in>{0..<w div 2 + 1}. \<Sum>c\<in>{0..<2 * w}. layout_entry w i c)"
proof -
  have "int (length (concat (columns (built_tree w))))
          = (\<Sum>c\<in>{0..<2 * w}. \<Sum>i\<in>{0..<w div 2 + 1}. layout_entry w i c)"
    by (simp add: length_concat built_tree_fields int_sum_list_map comp_def
          length_primary_column sum_list_range0)
  also have "\<dots> = (\<Sum>i\<in>{0..<w div 2 + 1}. \<Sum>c\<in>{0..<2 * w}. layout_entry w i c)"
    by (rule sum.swap)
  finally show ?thesis .
qed

lemma overflow_bits:
  assumes "4 \<le> w"
  shows "(\<Sum>i\<in>{0..<w div 2 + 1}. layout_entry w i (2 * w) + layout_entry w i (2 * w + 1))
           = (if even w then 2 else 0)"
proof -
  have "(\<Sum>i\<in>{0..<w div 2 + 1}. layout_entry w i (2 * w) + layout_entry w i (2 * w + 1))
          = (\<Sum>i\<in>{0..<w div 2 + 1}. if layout_entry w i (2 * w) = 1 then 1 else 0)"
    using layout_entry_01 [of w _ "2 * w"]
    by (intro sum.cong) (auto simp: last_column_rows [OF assms])
  also have "\<dots> = int (card {i \<in> {0..<w div 2 + 1}. layout_entry w i (2 * w) = 1})"
    by (simp add: sum.If_cases Int_def)
  also have "\<dots> = (if even w then 2 else 0)"
    unfolding overflow_column_rows [OF assms] by simp
  finally show ?thesis .
qed

lemma count_layout_split:
  assumes "4 \<le> w"
  shows "int (count_list (concat (layout w)) 1)
     = int (length (concat (columns (built_tree w)))) + (if even w then 2 else 0)"
proof -
  have "(\<Sum>i\<in>{0..<w div 2 + 1}. \<Sum>c\<in>{0..<2 * w + 2}. layout_entry w i c)
          = (\<Sum>i\<in>{0..<w div 2 + 1}. (\<Sum>c\<in>{0..<2 * w}. layout_entry w i c)
               + (layout_entry w i (2 * w) + layout_entry w i (2 * w + 1)))"
    using assms by (intro sum.cong) (simp_all add: split_last_two)
  also have "\<dots> = (\<Sum>i\<in>{0..<w div 2 + 1}. \<Sum>c\<in>{0..<2 * w}. layout_entry w i c)
                    + (if even w then 2 else 0)"
    by (subst sum.distrib) (simp only: overflow_bits [OF assms])
  finally show ?thesis
    by (simp only: count_layout_total total_primary_signals_concat)
qed

lemma primary_signal_fields:
  "s \<in> set (primary_column w c) \<Longrightarrow> latency s = 4 \<and> host s = None"
  by (auto simp: primary_column_def new_Signal_def BOOTH_DELAY_def)

text \<open>
  C5: for every width \<open>w \<ge> 4\<close> the layout is a matrix of \<open>pp_num = w div 2 + 1\<close>
  rows and \<open>result_width + 2\<close> columns; the populated width is \<open>w + 4\<close> for row 0,
  \<open>w + 3\<close> for the last row and \<open>w + 5\<close> for a middle row; a row starts at column 0
  for rows 0 and 1 and at \<open>2 * row - 2\<close> otherwise; and the entry at (row, col) is 1
  exactly when col lies in [start(row), start(row) + pp\_width(row)), and 0 otherwise. The
  instance at width 8 has 5 rows, result width 16 and row widths 12, 13, 13, 13, 11.
\<close>

theorem partial_product_layout:
  assumes "4 \<le> w" "3 \<le> d"
  shows "\<exists>t. WallaceTree_init w nm d = Inr t
     \<and> pp_num t = w div 2 + 1 \<and> result_width t = 2 * w
     \<and> length (tree_map t) = nat (pp_num t)
     \<and> (\<forall>row. 0 \<le> row \<and> row < pp_num t \<longrightarrow>
          length (tree_map t ! nat row) = nat (result_width t + 2)
          \<and> get_pp_width t row =
              Inr (if row = 0 then w + 4 else if row = pp_num t - 1 then w + 3 else w + 5)
          \<and> (\<forall>col. 0 \<le> col \<and> col < result_width t + 2 \<longrightarrow>
                (tree_map t ! nat row ! nat col = 0 \<or> tree_map t ! nat row ! nat col = 1)
                \<and> (tree_map t ! nat row ! nat col = 1) =
                    ((if row \<le> 1 then 0 else 2 * row - 2) \<le> col
                     \<and> col < (if row \<le> 1 then 0 else 2 * row - 2)
                             + (if row = 0 then w + 4
                                else if row = pp_num t - 1 then w + 3 else w + 5))))"
proof -
  have rows: "length (tree_map (built_tree w) ! nat row) = nat (result_width (built_tree w) + 2)
          \<and> get_pp_width (built_tree w) row =
              Inr (if row = 0 then w + 4 else if row = pp_num (built_tree w) - 1 then w + 3 else w + 5)
          \<and> (\<forall>col. 0 \<le> col \<and> col < result_width (built_tree w) + 2 \<longrightarrow>
                (tree_map (built_tree w) ! nat row ! nat col = 0 \<or> tree_map (built_tree w) ! nat row ! nat col = 1)
                \<and> (tree_map (built_tree w) ! nat row ! nat col = 1) =
                    ((if row \<le> 1 then 0 else 2 * row - 2) \<le> col
                     \<and> col < (if row \<le> 1 then 0 else 2 * row - 2)
                             + (if row = 0 then w + 4
                                else if row = pp_num (built_tree w) - 1 then w + 3 else w + 5)))"
    if "0 \<le> row \<and> row < pp_num (built_tree w)" for row
  proof -
    from that have r: "0 \<le> row" "row < w div 2 + 1"
      by (simp_all add: built_tree_fields)
    have len: "length (layout w ! nat row) = nat (2 * w + 2)"
      using r by (simp add: layout_row length_range0)
    have ppw: "get_pp_width (built_tree w) row =
            Inr (if row = 0 then w + 4 else if row = w div 2 + 1 - 1 then w + 3 else w + 5)"
      using r by (simp add: get_pp_width_in_range [of _ w] built_tree_fields row_width_def)
    have ent: "(layout w ! nat row ! nat col = 0 \<or> layout w ! nat row ! nat col = 1)
          \<and> (layout w ! nat row ! nat col = 1) =
              ((if row \<le> 1 then 0 else 2 * row - 2) \<le> col
               \<and> col < (if row \<le> 1 then 0 else 2 * row - 2)
                       + (if row = 0 then w + 4
                          else if row = w div 2 + 1 - 1 then w + 3 else w + 5))"
      if c: "0 \<le> col \<and> col < 2 * w + 2" for col
    proof -
      from c r have e: "layout w ! nat row ! nat col = layout_entry w row col"
        by (simp add: layout_nth)
      show ?thesis
        unfolding e by (auto simp: layout_entry_def row_start_def row_width_def)
    qed
    from len ppw ent show ?thesis
      unfolding built_tree_fields by blast
  qed
  have a: "WallaceTree_init w nm d = Inr (built_tree w)"
    using assms by (rule WallaceTree_init_ok)
  have b: "pp_num (built_tree w) = w div 2 + 1" "result_width (built_tree w) = 2 * w"
    "length (tree_map (built_tree w)) = nat (pp_num (built_tree w))"
    by (simp_all add: built_tree_fields length_layout)
  from rows have e: "\<forall>row. 0 \<le> row \<and> row < pp_num (built_tree w) \<longrightarrow>
          length (tree_map (built_tree w) ! nat row) = nat (result_width (built_tree w) + 2)
          \<and> get_pp_width (built_tree w) row =
              Inr (if row = 0 then w + 4 else if row = pp_num (built_tree w) - 1 then w + 3 else w + 5)
          \<and> (\<forall>col. 0 \<le> col \<and> col < result_width (built_tree w) + 2 \<longrightarrow>
                (tree_map (built_tree w) ! nat row ! nat col = 0 \<or> tree_map (built_tree w) ! nat row ! nat col = 1)
                \<and> (tree_map (built_tree w) ! nat row ! nat col = 1) =
                    ((if row \<le> 1 then 0 else 2 * row - 2) \<le> col
                     \<and> col < (if row \<le> 1 then 0 else 2 * row - 2)
                             + (if row = 0 then w + 4
                                else if row = pp_num (built_tree w) - 1 then w + 3 else w + 5)))"
    by blast
  show ?thesis
    by (rule exI [of _ "built_tree w"]) (intro conjI a b e)
qed

theorem partial_product_layout_witness:
  "(4::int) \<le> 8 \<and> (3::int) \<le> 20
   \<and> (\<exists>t. WallaceTree_init 8 ''pp'' 20 = Inr t
         \<and> pp_num t = 5 \<and> result_width t = 16
         \<and> length (tree_map t) = 5 \<and> length (tree_map t ! 0) = 18
         \<and> map (get_pp_width t) [0, 1, 2, 3, 4] = [Inr 12, Inr 13, Inr 13, Inr 13, Inr 11])"
proof -
  from partial_product_layout [of 8 20 "''pp''"]
  obtain t where t: "WallaceTree_init 8 ''pp'' 20 = Inr t" "pp_num t = 5" "result_width t = 16"
      "length (tree_map t) = 5"
    and rows: "\<And>row. 0 \<le> row \<Longrightarrow> row < 5 \<Longrightarrow>
          length (tree_map t ! nat row) = 18
          \<and> get_pp_width t row = Inr (if row = 0 then 12 else if row = 4 then 11 else 13)"
    by auto
  from rows [of 0] rows [of 1] rows [of 2] rows [of 3] rows [of 4]
  have "map (get_pp_width t) [0, 1, 2, 3, 4] = [Inr 12, Inr 13, Inr 13, Inr 13, Inr 11]"
    and "length (tree_map t ! 0) = 18"
    by simp_all
  then show ?thesis using t by simp
qed


lemma get_pp_width_built:
  assumes "4 \<le> w" "0 \<le> row \<and> row < pp_num (built_tree w)"
  shows "get_pp_width (built_tree w) row
           = Inr (int (count_list (tree_map (built_tree w) ! nat row) 1))"
proof -
  from assms(2) have r: "0 \<le> row" "row < w div 2 + 1"
    by (simp_all add: built_tree_fields)
  show ?thesis
    using r by (simp add: built_tree_fields get_pp_width_in_range [of _ w]
                  count_layout_row [OF assms(1) r])
qed

text \<open>
  C7 (as amended): for every width \<open>w \<ge> 4\<close>, the number of 1-entries of every layout
  row is the row's width as \<open>get_pp_width\<close> gives it; there is one column list per
  column below \<open>result_width\<close>, and the total number of primary signals in them is the
  number of set bits of the layout in the columns below \<open>result_width\<close>. The layout
  has two more columns than that: the set bits of the whole matrix are the primary signals
  plus 2 when the width is even, and equal to them when it is odd. Every primary signal has
  latency BOOTH = 4.0 and no producer.
\<close>

theorem layout_bits_and_primary_signals:
  assumes "4 \<le> w" "3 \<le> d"
  shows "\<exists>t. WallaceTree_init w nm d = Inr t
     \<and> (\<forall>row. 0 \<le> row \<and> row < pp_num t \<longrightarrow>
          get_pp_width t row = Inr (int (count_list (tree_map t ! nat row) 1)))
     \<and> length (columns t) = nat (result_width t)
     \<and> length (concat (columns t))
         = count_list (concat (map (take (nat (result_width t))) (tree_map t))) 1
     \<and> count_list (concat (tree_map t)) 1
         = length (concat (columns t)) + (if even w then 2 else 0)
     \<and> (\<forall>s \<in> set (concat (columns t)). latency s = 4 \<and> host s = None)"
proof -
  let ?t = "built_tree w"
  have a: "WallaceTree_init w nm d = Inr ?t"
    using assms by (rule WallaceTree_init_ok)
  have b: "\<forall>row. 0 \<le> row \<and> row < pp_num ?t \<longrightarrow>
          get_pp_width ?t row = Inr (int (count_list (tree_map ?t ! nat row) 1))"
    using get_pp_width_built [OF assms(1)] by blast
  have c: "length (columns ?t) = nat (result_width ?t)"
    by (simp add: built_tree_fields length_range0)
  have "int (length (concat (columns ?t)))
          = int (count_list (concat (map (take (nat (2 * w))) (layout w))) 1)"
    using assms(1) by (simp only: total_primary_signals_concat count_layout_restricted)
  then have e: "length (concat (columns ?t))
         = count_list (concat (map (take (nat (result_width ?t))) (tree_map ?t))) 1"
    by (simp only: built_tree_fields of_nat_eq_iff)
  have "int (count_list (concat (tree_map ?t)) 1)
          = int (length (concat (columns ?t)) + (if even w then 2 else 0))"
    using count_layout_split [OF assms(1)] by (simp add: built_tree_fields)
  then have f: "count_list (concat (tree_map ?t)) 1
         = length (concat (columns ?t)) + (if even w then 2 else 0)"
    by (simp only: of_nat_eq_iff)
  have g: "\<forall>s \<in> set (concat (columns ?t)). latency s = 4 \<and> host s = None"
    by (auto simp: built_tree_fields dest: primary_signal_fields)
  show ?thesis
    by (rule exI [of _ ?t]) (intro conjI a b c e f g)
qed

theorem layout_bits_and_primary_signals_witness:
  "(4::int) \<le> 8 \<and> (3::int) \<le> 20 \<and>
   (\<exists>t. WallaceTree_init (8::int) ''pp'' 20 = Inr t
     \<and> (\<forall>row. 0 \<le> row \<and> row < pp_num t \<longrightarrow>
          get_pp_width t row = Inr (int (count_list (tree_map t ! nat row) 1)))
     \<and> length (columns t) = nat (result_width t)
     \<and> length (concat (columns t))
         = count_list (concat (map (take (nat (result_width t))) (tree_map t))) 1
     \<and> count_list (concat (tree_map t)) 1
         = length (concat (columns t)) + (if even (8::int) then 2 else 0)
     \<and> (\<forall>s \<in> set (concat (columns t)). latency s = 4 \<and> host s = None))"
proof -
  have h: "(4::int) \<le> 8" "(3::int) \<le> 20" by simp_all
  from layout_bits_and_primary_signals [OF h, of "''pp''"] h show ?thesis
    by (intro conjI)
qed

text \<open>
  C7 as stated fails at width 8: the layout holds 62 set bits (12 + 13 + 13 + 13 + 11), the
  sixteen columns hold 60 primary signals; rows 3 and 4 reach column 16, for which no
  column list is built.
\<close>

theorem layout_bits_width_8_counterexample:
  "\<not> isl (WallaceTree_init 8 ''pp'' 20)
   \<and> count_list (concat (tree_map (projr (WallaceTree_init 8 ''pp'' 20)))) 1 = 62
   \<and> length (concat (columns (projr (WallaceTree_init 8 ''pp'' 20)))) = 60
   \<and> count_list (concat (tree_map (projr (WallaceTree_init 8 ''pp'' 20)))) 1
       \<noteq> length (concat (columns (projr (WallaceTree_init 8 ''pp'' 20))))"
  by code_simp

subsection \<open>Column reduction on lists of any length\<close>

text \<open>
  The step for more than five signals, and the outcome of \<open>column_add\<close> by the length
  of the list: AssertionError on the empty list, IndexError when the length is 1 modulo 5
  (the recursion then ends on a single signal), a pair of carries and sums otherwise.
\<close>

lemma column_add_three:
  "column_add self [a, b, c] col lvl no =
     (Inr ([cout (new_Compressor3to2 a b c col lvl no)],
           [c_sum (new_Compressor3to2 a b c col lvl no)]),
      register_compressor self (new_Compressor3to2 a b c col lvl no), [])"
  by (simp add: column_add.simps Let_def)

lemma column_add_four:
  "column_add self [a, b, c, d] col lvl no =
     (Inr ([cout_a (new_Compressor4to2 a b c d TIE_LOW col lvl no),
            cout_b (new_Compressor4to2 a b c d TIE_LOW col lvl no)],
           [c_sum (new_Compressor4to2 a b c d TIE_LOW col lvl no)]),
      register_compressor self (new_Compressor4to2 a b c d TIE_LOW col lvl no), [])"
  by (simp add: column_add.simps Let_def)

lemma column_add_five:
  "column_add self [a, b, c, d, e] col lvl no =
     (Inr ([cout_a (new_Compressor4to2 a b c d e col lvl no),
            cout_b (new_Compressor4to2 a b c d e col lvl no)],
           [c_sum (new_Compressor4to2 a b c d e col lvl no)]),
      register_compressor self (new_Compressor4to2 a b c d e col lvl no), [])"
  by (simp add: column_add.simps Let_def)

lemma column_add_more_than_five:
  assumes "5 < length xs"
  shows "column_add self xs col lvl no =
     (let n = length xs;
          c = new_Compressor4to2 (xs ! (n - 1)) (xs ! (n - 2)) (xs ! (n - 3)) (xs ! (n - 4))
                (xs ! (n - 5)) col lvl no
      in case column_add (register_compressor self c) (take (n - 5) xs) col lvl (no + 1) of
           (Inl e, self2, rest) \<Rightarrow> (Inl e, self2, rest)
         | (Inr (cout_remain, sum_remain), self2, rest) \<Rightarrow>
             (Inr ([cout_a c, cout_b c] @ cout_remain, [c_sum c] @ sum_remain), self2, rest))"
  by (subst column_add.simps) (use assms in \<open>auto simp: Let_def\<close>)

lemma short_list_cases:
  assumes "length xs \<le> 5"
  obtains "xs = []" | a where "xs = [a]" | a b where "xs = [a, b]"
    | a b c where "xs = [a, b, c]" | a b c d where "xs = [a, b, c, d]"
    | a b c d e where "xs = [a, b, c, d, e]"
proof -
  from assms have "length xs = 0 \<or> length xs = 1 \<or> length xs = 2 \<or> length xs = 3
      \<or> length xs = 4 \<or> length xs = 5"
    by arith
  then show ?thesis
    using that by (auto simp: length_Suc_conv numeral_eq_Suc)
qed

lemma column_add_short:
  assumes "length xs \<le> 5"
  shows "(case fst (column_add self xs col lvl no) of
            Inl e \<Rightarrow> e = (if xs = [] then AssertionError else IndexError)
                      \<and> (xs = [] \<or> length xs = 1)
          | Inr r \<Rightarrow> 2 \<le> length xs)"
  using assms
  by (cases xs rule: short_list_cases)
     (simp_all add: column_add_empty column_add_one column_add_two column_add_three
        column_add_four column_add_five)

lemma column_add_outcome:
  "(case fst (column_add self xs col lvl no) of
      Inl e \<Rightarrow> e = (if xs = [] then AssertionError else IndexError)
                \<and> (xs = [] \<or> length xs mod 5 = 1)
    | Inr r \<Rightarrow> xs \<noteq> [] \<and> length xs mod 5 \<noteq> 1)"
proof (induction "length xs" arbitrary: self xs no rule: less_induct)
  case less
  show ?case
  proof (cases "5 < length xs")
    case False
    then have s: "length xs \<le> 5" by simp
    from s show ?thesis
      by (cases xs rule: short_list_cases)
         (simp_all add: column_add_empty column_add_one column_add_two column_add_three
            column_add_four column_add_five)
  next
    case True
    let ?n = "length xs"
    let ?c = "new_Compressor4to2 (xs ! (?n - 1)) (xs ! (?n - 2)) (xs ! (?n - 3))
                (xs ! (?n - 4)) (xs ! (?n - 5)) col lvl no"
    let ?ys = "take (?n - 5) xs"
    have l: "length ?ys = ?n - 5" "length ?ys < ?n" "?ys \<noteq> []" "xs \<noteq> []"
      using True by auto
    have m: "(?n - 5) mod 5 = ?n mod 5"
      using True by (simp add: mod_if [symmetric] le_mod_geq)
    from less [OF l(2), of "register_compressor self ?c" "no + 1"] l m
    show ?thesis
      unfolding column_add_more_than_five [OF True] Let_def
      by (auto split: sum.splits prod.splits)
  qed
qed

end
